theory Spec2Isabelle
  imports Main "HOL-Library.AList"
begin

unbundle bit_operations_syntax

section \<open>Errors\<close>

text \<open>
  Exceptions are values. \<open>ValueError\<close>, \<open>KeyError\<close> and \<open>TypeError\<close> are the Python
  exceptions the code can raise (a failed \<open>int(s)\<close> or tuple unpacking, a missing
  dictionary key, arithmetic on \<open>None\<close>), \<open>IndexError\<close> is a list index out of
  range; the specification calls the first
  FormatError and the second NotFoundError. \<open>OverflowError\<close> and
  \<open>ConfigurationError\<close> are the two further kinds of the specification's taxonomy.
\<close>

datatype error =
  ValueError | KeyError | TypeError | IndexError | OverflowError | ConfigurationError

section \<open>Python string formatting and parsing\<close>

text \<open>The digit characters used by \<open>%i\<close> and \<open>%x\<close>.\<close>

definition digit_char :: "nat \<Rightarrow> char" where
  "digit_char d = ''0123456789abcdef'' ! d"

function str_nat :: "nat \<Rightarrow> string" where
  "str_nat n = (if n < 10 then [digit_char n] else str_nat (n div 10) @ [digit_char (n mod 10)])"
  by pat_completeness auto
termination
  by (relation "measure (\<lambda>n. n)") auto

declare str_nat.simps [simp del]

function hex_nat :: "nat \<Rightarrow> string" where
  "hex_nat n = (if n < 16 then [digit_char n] else hex_nat (n div 16) @ [digit_char (n mod 16)])"
  by pat_completeness auto
termination
  by (relation "measure (\<lambda>n. n)") auto

declare hex_nat.simps [simp del]

text \<open>\<open>"%i" % i\<close> and \<open>str(i)\<close> for an integer.\<close>

definition fmt_i :: "int \<Rightarrow> string" where
  "fmt_i i = (if i < 0 then CHR ''-'' # str_nat (nat (- i)) else str_nat (nat i))"

text \<open>\<open>"%0wx" % i\<close>: lower-case hexadecimal, zero-padded to width \<open>w\<close> after the sign.\<close>

definition zfill :: "nat \<Rightarrow> string \<Rightarrow> string" where
  "zfill w s = replicate (w - length s) CHR ''0'' @ s"

definition fmt_x :: "nat \<Rightarrow> int \<Rightarrow> string" where
  "fmt_x w i = (if i < 0 then CHR ''-'' # zfill (w - 1) (hex_nat (nat (- i)))
                else zfill w (hex_nat (nat i)))"

text \<open>\<open>s.split(d)\<close> with a one-character separator.\<close>

fun split_str :: "char \<Rightarrow> string \<Rightarrow> string list" where
  "split_str d [] = [[]]"
| "split_str d (c # cs) =
     (if c = d then [] # split_str d cs
      else (case split_str d cs of [] \<Rightarrow> [[c]] | w # ws \<Rightarrow> (c # w) # ws))"

text \<open>
  \<open>int(s)\<close> on a string: surrounding whitespace is stripped, one sign is allowed, and
  what remains must be a non-empty run of decimal digits; anything else raises
  \<open>ValueError\<close>.
\<close>

definition digit_val :: "char \<Rightarrow> nat option" where
  "digit_val c = map_of [(CHR ''0'', 0), (CHR ''1'', 1), (CHR ''2'', 2), (CHR ''3'', 3),
     (CHR ''4'', 4), (CHR ''5'', 5), (CHR ''6'', 6), (CHR ''7'', 7), (CHR ''8'', 8),
     (CHR ''9'', 9)] c"

fun parse_digits :: "nat \<Rightarrow> string \<Rightarrow> nat option" where
  "parse_digits acc [] = Some acc"
| "parse_digits acc (c # cs) =
     (case digit_val c of None \<Rightarrow> None | Some d \<Rightarrow> parse_digits (acc * 10 + d) cs)"

definition is_space :: "char \<Rightarrow> bool" where
  "is_space c = (c \<in> set [CHR '' '', CHR 0x09, CHR 0x0A, CHR 0x0B, CHR 0x0C, CHR 0x0D])"

definition strip :: "string \<Rightarrow> string" where
  "strip s = rev (dropWhile is_space (rev (dropWhile is_space s)))"

definition parse_unsigned :: "string \<Rightarrow> error + int" where
  "parse_unsigned s =
     (if s = [] then Inl ValueError
      else (case parse_digits 0 s of None \<Rightarrow> Inl ValueError | Some n \<Rightarrow> Inr (int n)))"

definition py_int :: "string \<Rightarrow> error + int" where
  "py_int s =
     (case strip s of
        [] \<Rightarrow> Inl ValueError
      | c # cs \<Rightarrow>
          if c = CHR ''-'' then (case parse_unsigned cs of Inl e \<Rightarrow> Inl e | Inr n \<Rightarrow> Inr (- n))
          else if c = CHR ''+'' then parse_unsigned cs
          else parse_unsigned (c # cs))"

text \<open>A list comprehension whose body can raise: the first failure aborts it.\<close>

fun mapM :: "('a \<Rightarrow> error + 'b) \<Rightarrow> 'a list \<Rightarrow> error + 'b list" where
  "mapM f [] = Inr []"
| "mapM f (x # xs) =
     (case f x of
        Inl e \<Rightarrow> Inl e
      | Inr y \<Rightarrow> (case mapM f xs of Inl e \<Rightarrow> Inl e | Inr ys \<Rightarrow> Inr (y # ys)))"

section \<open>Node identifiers\<close>

text \<open>
  \<open>PORT_BASE\<close>, the starting index for OpenFlow switch ports.
\<close>

definition PORT_BASE :: int where
  "PORT_BASE = 1"

text \<open>
  Class \<open>NodeID\<close>: one field \<open>dpid\<close>, \<open>None\<close> by default. \<open>ip_str\<close> takes bits 8 to 15
  and bits 0 to 7 of the dpid; on a \<open>None\<close> dpid the \<open>&\<close> raises \<open>TypeError\<close>.
\<close>

record NodeID =
  dpid :: "int option"

definition NodeID_init :: "int option \<Rightarrow> NodeID" where
  "NodeID_init d = \<lparr>dpid = d\<rparr>"

definition NodeID_ip_str :: "'a NodeID_scheme \<Rightarrow> error + string" where
  "NodeID_ip_str self =
     (case dpid self of
        None \<Rightarrow> Inl TypeError
      | Some d \<Rightarrow>
          (let hi = drop_bit 8 (d AND 0xff00);
               lo = d AND 0xff
           in Inr (''10.0.'' @ fmt_i hi @ ''.'' @ fmt_i lo)))"

text \<open>
  Class \<open>LeafSpineTopo.LeafSpineNodeID\<close>, a subclass of \<open>NodeID\<close> with the fields
  \<open>sw\<close> and \<open>host\<close>. The constructor tests \<open>if dpid:\<close> and \<open>elif name:\<close>, so a
  dpid of \<open>None\<close> or \<open>0\<close> and a name of \<open>None\<close> or \<open>""\<close> fall through to the next
  branch. In the name branch, \<open>int\<close> and the unpacking into two variables raise
  \<open>ValueError\<close>.
\<close>

record LeafSpineNodeID = NodeID +
  sw :: int
  host :: int

definition LeafSpineNodeID_init ::
  "int \<Rightarrow> int \<Rightarrow> int option \<Rightarrow> string option \<Rightarrow> error + LeafSpineNodeID" where
  "LeafSpineNodeID_init sw0 host0 dpid0 name0 =
     (case (if dpid0 = Some 0 then None else dpid0) of
        Some d \<Rightarrow>
          Inr \<lparr>dpid = Some d, sw = drop_bit 8 (d AND 0xff00), host = d AND 0xff\<rparr>
      | None \<Rightarrow>
          (case (if name0 = Some [] then None else name0) of
             Some n \<Rightarrow>
               (case mapM py_int (split_str CHR ''_'' n) of
                  Inl e \<Rightarrow> Inl e
                | Inr [s, h] \<Rightarrow> Inr \<lparr>dpid = Some (push_bit 8 s + h), sw = s, host = h\<rparr>
                | Inr _ \<Rightarrow> Inl ValueError)
           | None \<Rightarrow>
               Inr \<lparr>dpid = Some (push_bit 8 sw0 + host0), sw = sw0, host = host0\<rparr>))"

definition LeafSpineNodeID_str :: "LeafSpineNodeID \<Rightarrow> string" where
  "LeafSpineNodeID_str self = ''('' @ fmt_i (sw self) @ '', '' @ fmt_i (host self) @ '')''"

definition name_str :: "LeafSpineNodeID \<Rightarrow> string" where
  "name_str self = fmt_i (sw self) @ ''_'' @ fmt_i (host self)"

definition mac_str :: "LeafSpineNodeID \<Rightarrow> string" where
  "mac_str self = ''00:00:00:00:'' @ fmt_x 2 (sw self) @ '':'' @ fmt_x 2 (host self)"

definition ip_str :: "LeafSpineNodeID \<Rightarrow> string" where
  "ip_str self = ''10.0.'' @ fmt_i (sw self) @ ''.'' @ fmt_i (host self)"

section \<open>The graph store\<close>

text \<open>
  Modelled from the spec: the \<open>Topo\<close> base class and its graph belong to the external
  emulator and are not part of this repository. The specification describes what the
  builder relies on: vertices carrying metadata, "a set of undirected edges between
  vertices, each optionally tagged with bandwidth/delay attributes", to be kept as "an
  explicit adjacency-list or adjacency-map structure". Accordingly \<open>g\<close> maps a vertex
  name to the list of its neighbours, \<open>add_edge\<close> enters an edge at both of its ends,
  \<open>node_info\<close> maps a vertex name to its options and \<open>link_info\<close> maps a pair of
  endpoints to the link's options. The dictionaries are association lists in insertion
  order; no statement below depends on that order.

  The options of a vertex are a dictionary whose keys, in this program, are \<open>layer\<close>,
  \<open>ip\<close>, \<open>mac\<close>, \<open>dpid\<close> (written by \<open>def_nopts\<close>) and \<open>isSwitch\<close>
  (written by \<open>addSwitch\<close>): a record with one optional field per key, \<open>None\<close>
  for a key that is absent. The options of a link are \<open>bw\<close> and \<open>delay\<close>.
\<close>

record nopts =
  opt_layer :: "int option"
  opt_ip :: "string option"
  opt_mac :: "string option"
  opt_dpid :: "string option"
  opt_isSwitch :: bool

definition no_nopts :: nopts where
  "no_nopts = \<lparr>opt_layer = None, opt_ip = None, opt_mac = None, opt_dpid = None,
     opt_isSwitch = False\<rparr>"

record lopts =
  opt_bw :: "int option"
  opt_delay :: "string option"

definition no_lopts :: lopts where
  "no_lopts = \<lparr>opt_bw = None, opt_delay = None\<rparr>"

type_synonym graph = "(string \<times> string list) list"

record Topo =
  g :: graph
  node_info :: "(string \<times> nopts) list"
  link_info :: "((string \<times> string) \<times> lopts) list"

definition Topo_init :: Topo where
  "Topo_init = \<lparr>g = [], node_info = [], link_info = []\<rparr>"

definition nodes :: "graph \<Rightarrow> string list" where
  "nodes gr = map fst gr"

definition add_node :: "string \<Rightarrow> graph \<Rightarrow> graph" where
  "add_node n gr = (case map_of gr n of None \<Rightarrow> AList.update n [] gr | Some _ \<Rightarrow> gr)"

definition add_neighbor :: "string \<Rightarrow> string \<Rightarrow> graph \<Rightarrow> graph" where
  "add_neighbor a b gr =
     (case map_of gr a of
        None \<Rightarrow> AList.update a [b] gr
      | Some ns \<Rightarrow> if b \<in> set ns then gr else AList.update a (ns @ [b]) gr)"

definition add_edge :: "string \<Rightarrow> string \<Rightarrow> graph \<Rightarrow> graph" where
  "add_edge a b gr = add_neighbor b a (add_neighbor a b (add_node b (add_node a gr)))"

text \<open>\<open>self.g[name]\<close>: the neighbours of a vertex, \<open>KeyError\<close> for an unknown one.\<close>

definition neighbors :: "graph \<Rightarrow> string \<Rightarrow> error + string list" where
  "neighbors gr n = (case map_of gr n of None \<Rightarrow> Inl KeyError | Some ns \<Rightarrow> Inr ns)"

text \<open>
  \<open>addNode\<close>, \<open>addHost\<close>, \<open>addSwitch\<close> and \<open>addLink\<close> update the store; the
  first three return the name they were given, which the model leaves to the caller.
\<close>

definition addNode :: "string \<Rightarrow> nopts \<Rightarrow> Topo \<Rightarrow> Topo" where
  "addNode name opts t =
     t\<lparr>g := add_node name (g t), node_info := AList.update name opts (node_info t)\<rparr>"

definition addHost :: "string \<Rightarrow> nopts \<Rightarrow> Topo \<Rightarrow> Topo" where
  "addHost name opts t = addNode name opts t"

definition addSwitch :: "string \<Rightarrow> nopts \<Rightarrow> Topo \<Rightarrow> Topo" where
  "addSwitch name opts t = addNode name (opts\<lparr>opt_isSwitch := True\<rparr>) t"

definition addLink :: "string \<Rightarrow> string \<Rightarrow> lopts \<Rightarrow> Topo \<Rightarrow> Topo" where
  "addLink node1 node2 opts t =
     t\<lparr>g := add_edge node1 node2 (g t),
       link_info := AList.update (node1, node2) opts (link_info t)\<rparr>"

section \<open>Loops and ranges\<close>

text \<open>\<open>range(a, b)\<close> on integers; empty when \<open>b \<le> a\<close>.\<close>

definition range_list :: "int \<Rightarrow> int \<Rightarrow> int list" where
  "range_list a b = [a..b - 1]"

text \<open>A \<open>for\<close> loop over a list whose body updates a state and can raise.\<close>

fun foldM :: "('a \<Rightarrow> 's \<Rightarrow> error + 's) \<Rightarrow> 'a list \<Rightarrow> 's \<Rightarrow> error + 's" where
  "foldM f [] s = Inr s"
| "foldM f (x # xs) s = (case f x s of Inl e \<Rightarrow> Inl e | Inr s' \<Rightarrow> foldM f xs s')"

text \<open>A filtering list comprehension whose condition can raise.\<close>

fun filterM :: "('a \<Rightarrow> error + bool) \<Rightarrow> 'a list \<Rightarrow> error + 'a list" where
  "filterM p [] = Inr []"
| "filterM p (x # xs) =
     (case p x of
        Inl e \<Rightarrow> Inl e
      | Inr b \<Rightarrow>
          (case filterM p xs of
             Inl e \<Rightarrow> Inl e
           | Inr ys \<Rightarrow> Inr (if b then x # ys else ys)))"

text \<open>
  Subscripting a list, \<open>xs[i]\<close>: an index from \<open>-len(xs)\<close> up to \<open>-1\<close> is
  taken from the end of the list, and outside \<open>-len(xs) .. len(xs) - 1\<close> the
  subscript raises \<open>IndexError\<close>.
\<close>

definition subscript :: "'a list \<Rightarrow> int \<Rightarrow> error + 'a" where
  "subscript xs i =
     (if 0 \<le> i \<and> i < int (length xs) then Inr (xs ! nat i)
      else if i < 0 \<and> - int (length xs) \<le> i then Inr (xs ! nat (int (length xs) + i))
      else Inl IndexError)"

section \<open>StructuredTopo\<close>

text \<open>
  The queries of class \<open>StructuredTopo\<close>. Its attributes \<open>node_specs\<close> and
  \<open>edge_specs\<close> are stored by the constructor and read by none of its methods.
\<close>

definition layer :: "Topo \<Rightarrow> string \<Rightarrow> error + int" where
  "layer self name =
     (case map_of (node_info self) name of
        None \<Rightarrow> Inl KeyError
      | Some opts \<Rightarrow> (case opt_layer opts of None \<Rightarrow> Inl KeyError | Some l \<Rightarrow> Inr l))"

definition isPortUp :: "int \<Rightarrow> bool" where
  "isPortUp port = (port mod 2 = PORT_BASE)"

definition is_layer :: "Topo \<Rightarrow> int \<Rightarrow> string \<Rightarrow> error + bool" where
  "is_layer self l n = (case layer self n of Inl e \<Rightarrow> Inl e | Inr ln \<Rightarrow> Inr (ln = l))"

definition layer_nodes :: "Topo \<Rightarrow> int \<Rightarrow> error + string list" where
  "layer_nodes self l = filterM (is_layer self l) (nodes (g self))"

definition up_nodes :: "Topo \<Rightarrow> string \<Rightarrow> error + string list" where
  "up_nodes self name =
     (case layer self name of
        Inl e \<Rightarrow> Inl e
      | Inr l \<Rightarrow>
          (case neighbors (g self) name of
             Inl e \<Rightarrow> Inl e
           | Inr ns \<Rightarrow> filterM (is_layer self (l - 1)) ns))"

definition down_nodes :: "Topo \<Rightarrow> string \<Rightarrow> error + string list" where
  "down_nodes self name =
     (case layer self name of
        Inl e \<Rightarrow> Inl e
      | Inr l \<Rightarrow>
          (case neighbors (g self) name of
             Inl e \<Rightarrow> Inl e
           | Inr ns \<Rightarrow> filterM (is_layer self (l + 1)) ns))"

definition up_edges :: "Topo \<Rightarrow> string \<Rightarrow> error + (string \<times> string) list" where
  "up_edges self name =
     (case up_nodes self name of Inl e \<Rightarrow> Inl e | Inr ns \<Rightarrow> Inr (map (Pair name) ns))"

definition down_edges :: "Topo \<Rightarrow> string \<Rightarrow> error + (string \<times> string) list" where
  "down_edges self name =
     (case down_nodes self name of Inl e \<Rightarrow> Inl e | Inr ns \<Rightarrow> Inr (map (Pair name) ns))"

section \<open>LeafSpineTopo\<close>

definition LAYER_SPINE :: int where
  "LAYER_SPINE = 0"

definition LAYER_LEAF :: int where
  "LAYER_LEAF = 1"

definition LAYER_HOST :: int where
  "LAYER_HOST = 2"

text \<open>
  \<open>def_nopts(layer, name)\<close>: the options of a vertex. With a non-empty name the
  identifier is rebuilt from the name; hosts get their \<open>ip\<close> and \<open>mac\<close>, every vertex
  its \<open>dpid\<close> as 16 hexadecimal digits.
\<close>

definition def_nopts :: "int \<Rightarrow> string option \<Rightarrow> error + nopts" where
  "def_nopts l name =
     (let d = no_nopts\<lparr>opt_layer := Some l\<rparr>
      in case (if name = Some [] then None else name) of
           None \<Rightarrow> Inr d
         | Some n \<Rightarrow>
             (case LeafSpineNodeID_init 0 0 None (Some n) of
                Inl e \<Rightarrow> Inl e
              | Inr ident \<Rightarrow>
                  (let d1 = (if l = LAYER_HOST
                             then d\<lparr>opt_ip := Some (ip_str ident),
                                    opt_mac := Some (mac_str ident)\<rparr>
                             else d)
                   in case dpid ident of
                        None \<Rightarrow> Inl TypeError
                      | Some dp \<Rightarrow> Inr (d1\<lparr>opt_dpid := Some (fmt_x 16 dp)\<rparr>))))"

text \<open>
  The constructor \<open>LeafSpineTopo.__init__(k)\<close>, loop by loop. The state of the first
  loop is the graph and the list \<open>spines\<close>. The locals \<open>pods\<close>, \<open>core_sws\<close>,
  \<open>agg_sws\<close>, \<open>edge_sws\<close>, \<open>hosts\<close>, \<open>spine_sws\<close> and \<open>leaf_sws\<close> are never read,
  and \<open>speed\<close> only enters the node and edge specs. \<open>k / 2\<close> is the integer division
  of Python 2.
\<close>

definition spine_step :: "int \<Rightarrow> Topo \<times> string list \<Rightarrow> error + Topo \<times> string list" where
  "spine_step s st =
     (case LeafSpineNodeID_init 0 s None None of
        Inl e \<Rightarrow> Inl e
      | Inr ident \<Rightarrow>
          (let spine_id = name_str ident
           in case def_nopts LAYER_SPINE (Some spine_id) of
                Inl e \<Rightarrow> Inl e
              | Inr spine_opts \<Rightarrow>
                  Inr (addSwitch spine_id spine_opts (fst st), snd st @ [spine_id])))"

definition host_step :: "int \<Rightarrow> int \<Rightarrow> string \<Rightarrow> int \<Rightarrow> Topo \<Rightarrow> error + Topo" where
  "host_step kk l leaf_id h t =
     (case LeafSpineNodeID_init 2 (l * (kk div 2) + h) None None of
        Inl e \<Rightarrow> Inl e
      | Inr ident \<Rightarrow>
          (let host_id = name_str ident
           in case def_nopts LAYER_HOST (Some host_id) of
                Inl e \<Rightarrow> Inl e
              | Inr host_opts \<Rightarrow>
                  Inr (addLink host_id leaf_id no_lopts (addHost host_id host_opts t))))"

definition uplink_step :: "string \<Rightarrow> string \<Rightarrow> Topo \<Rightarrow> error + Topo" where
  "uplink_step leaf_id s t = Inr (addLink leaf_id s no_lopts t)"

definition leaf_step :: "int \<Rightarrow> string list \<Rightarrow> int \<Rightarrow> Topo \<Rightarrow> error + Topo" where
  "leaf_step kk spines l t =
     (case LeafSpineNodeID_init 1 l None None of
        Inl e \<Rightarrow> Inl e
      | Inr ident \<Rightarrow>
          (let leaf_id = name_str ident
           in case def_nopts LAYER_LEAF (Some leaf_id) of
                Inl e \<Rightarrow> Inl e
              | Inr leaf_opts \<Rightarrow>
                  (case foldM (host_step kk l leaf_id) (range_list 0 (kk div 2))
                          (addSwitch leaf_id leaf_opts t) of
                     Inl e \<Rightarrow> Inl e
                   | Inr t' \<Rightarrow> foldM (uplink_step leaf_id) spines t')))"

definition LeafSpineTopo_init :: "int \<Rightarrow> error + Topo" where
  "LeafSpineTopo_init kk =
     (case foldM spine_step (range_list 0 kk) (Topo_init, []) of
        Inl e \<Rightarrow> Inl e
      | Inr st \<Rightarrow> foldM (leaf_step kk (snd st)) (range_list 0 (kk * 2)) (fst st))"

section \<open>MyTopo\<close>

text \<open>The class attributes and the constructor of \<open>MyTopo\<close> in \<open>leaf-spine.py\<close>.\<close>

definition numSpine :: int where
  "numSpine = 1"

definition numLeaf :: int where
  "numLeaf = 2"

definition numHostPerLeaf :: int where
  "numHostPerLeaf = 2"

definition bwSpineLeaf :: int where
  "bwSpineLeaf = 40"

definition bwLeafHost :: int where
  "bwLeafHost = 10"

definition delaySpineLeaf :: string where
  "delaySpineLeaf = ''0.004ms''"

definition delayLeafHost :: string where
  "delayLeafHost = ''0.004ms''"

definition switch_step :: "string \<Rightarrow> int \<Rightarrow> Topo \<times> string list \<Rightarrow> error + Topo \<times> string list" where
  "switch_step prefix i st =
     (let name = prefix @ fmt_i i
      in Inr (addSwitch name no_nopts (fst st), snd st @ [name]))"

definition myhost_step :: "int \<Rightarrow> Topo \<times> string list \<Rightarrow> error + Topo \<times> string list" where
  "myhost_step i st =
     (let name = ''h'' @ fmt_i i
      in Inr (addHost name no_nopts (fst st), snd st @ [name]))"

definition link_step ::
  "string list \<Rightarrow> string list \<Rightarrow> (int \<Rightarrow> int \<Rightarrow> int) \<Rightarrow> lopts \<Rightarrow> int \<Rightarrow> int \<Rightarrow> Topo \<Rightarrow> error + Topo" where
  "link_step uppers lowers idx opts i j t =
     (case subscript uppers i of
        Inl e \<Rightarrow> Inl e
      | Inr a \<Rightarrow>
          (case subscript lowers (idx i j) of
             Inl e \<Rightarrow> Inl e
           | Inr b \<Rightarrow> Inr (addLink a b opts t)))"

definition MyTopo_init :: "error + Topo" where
  "MyTopo_init =
     (case foldM (switch_step ''s'') (range_list 0 numSpine) (Topo_init, []) of
        Inl e \<Rightarrow> Inl e
      | Inr st1 \<Rightarrow>
     (case foldM (switch_step ''l'') (range_list 0 numLeaf) (fst st1, []) of
        Inl e \<Rightarrow> Inl e
      | Inr st2 \<Rightarrow>
     (case foldM myhost_step (range_list 0 (numHostPerLeaf * numLeaf)) (fst st2, []) of
        Inl e \<Rightarrow> Inl e
      | Inr st3 \<Rightarrow>
     (let spines = snd st1; leafs = snd st2; hosts = snd st3
      in case foldM (\<lambda>i. foldM (link_step spines leafs (\<lambda>i j. j)
                     \<lparr>opt_bw = Some bwSpineLeaf, opt_delay = Some delaySpineLeaf\<rparr> i)
                     (range_list 0 numLeaf))
                (range_list 0 numSpine) (fst st3) of
           Inl e \<Rightarrow> Inl e
         | Inr t4 \<Rightarrow>
             foldM (\<lambda>i. foldM (link_step leafs hosts (\<lambda>i j. i * numHostPerLeaf + j)
                     \<lparr>opt_bw = Some bwLeafHost, opt_delay = Some delayLeafHost\<rparr> i)
                     (range_list 0 numHostPerLeaf))
               (range_list 0 numLeaf) t4))))"

section \<open>Invariants of the graph store\<close>

text \<open>
  Predicates used to reason about every graph a constructor can build: the neighbour
  set of a vertex, whether a vertex carries a layer, and the well-formedness that the
  store's operations preserve (edges entered at both ends, every vertex of the graph
  carrying a layer, every vertex with options being a vertex of the graph).
\<close>

definition adj :: "graph \<Rightarrow> string \<Rightarrow> string set" where
  "adj gr n = (case map_of gr n of None \<Rightarrow> {} | Some ns \<Rightarrow> set ns)"

definition has_layer :: "Topo \<Rightarrow> string \<Rightarrow> bool" where
  "has_layer t n = (case layer t n of Inl _ \<Rightarrow> False | Inr _ \<Rightarrow> True)"

definition wf_topo :: "Topo \<Rightarrow> bool" where
  "wf_topo t =
     ((\<forall>a b. b \<in> adj (g t) a \<longleftrightarrow> a \<in> adj (g t) b) \<and>
      (\<forall>n \<in> set (nodes (g t)). has_layer t n) \<and>
      fst ` set (node_info t) \<subseteq> set (nodes (g t)))"

definition inv_topo :: "string set \<Rightarrow> Topo \<Rightarrow> bool" where
  "inv_topo X t = (wf_topo t \<and> (\<forall>n \<in> X. has_layer t n))"

section \<open>Properties of formatting and parsing\<close>

lemma digit_char_cases: "d < 10 \<Longrightarrow> d \<in> {0, 1, 2, 3, 4, 5, 6, 7, 8, 9::nat}"
  by auto

lemma digit_val_digit_char: "d < 10 \<Longrightarrow> digit_val (digit_char d) = Some d"
  using digit_char_cases [of d] by (auto simp: digit_val_def digit_char_def)

lemma digit_char_in: "d < 10 \<Longrightarrow> digit_char d \<in> set ''0123456789''"
  using digit_char_cases [of d] by (auto simp: digit_char_def)

lemma parse_digits_snoc:
  "parse_digits acc (xs @ [c]) =
     (case parse_digits acc xs of
        None \<Rightarrow> None
      | Some a \<Rightarrow> (case digit_val c of None \<Rightarrow> None | Some d \<Rightarrow> Some (a * 10 + d)))"
  by (induction xs arbitrary: acc) (auto split: option.splits)

lemma parse_digits_str_nat: "parse_digits 0 (str_nat n) = Some n"
proof (induction n rule: str_nat.induct)
  case (1 n)
  show ?case
  proof (cases "n < 10")
    case True
    then show ?thesis by (subst str_nat.simps) (simp add: digit_val_digit_char)
  next
    case False
    with 1 have "parse_digits 0 (str_nat (n div 10)) = Some (n div 10)" by simp
    with False show ?thesis
      by (subst str_nat.simps) (simp add: parse_digits_snoc digit_val_digit_char)
  qed
qed

lemma str_nat_digits: "set (str_nat n) \<subseteq> set ''0123456789''"
proof (induction n rule: str_nat.induct)
  case (1 n)
  show ?case
  proof (cases "n < 10")
    case True
    then show ?thesis using digit_char_in [of n] by (subst str_nat.simps) simp
  next
    case False
    with 1 have "set (str_nat (n div 10)) \<subseteq> set ''0123456789''" by simp
    with False show ?thesis using digit_char_in [of "n mod 10"]
      by (subst str_nat.simps) simp
  qed
qed

lemma str_nat_nonempty: "str_nat n \<noteq> []"
  by (subst str_nat.simps) simp

lemma dropWhile_none: "\<forall>c \<in> set s. \<not> P c \<Longrightarrow> dropWhile P s = s"
  by (cases s) auto

lemma strip_id: "\<forall>c \<in> set s. \<not> is_space c \<Longrightarrow> strip s = s"
  by (simp add: strip_def dropWhile_none)

lemma str_nat_no_space: "c \<in> set (str_nat n) \<Longrightarrow> \<not> is_space c"
  using str_nat_digits [of n] by (auto simp: is_space_def)

lemma parse_unsigned_str_nat: "parse_unsigned (str_nat n) = Inr (int n)"
  by (simp add: parse_unsigned_def str_nat_nonempty parse_digits_str_nat)

lemma py_int_fmt_i: "py_int (fmt_i i) = Inr i"
proof (cases "i < 0")
  case True
  have "strip (CHR ''-'' # str_nat (nat (- i))) = CHR ''-'' # str_nat (nat (- i))"
    by (rule strip_id) (auto simp: is_space_def dest: str_nat_no_space)
  with True show ?thesis
    by (simp add: py_int_def fmt_i_def parse_unsigned_str_nat)
next
  case False
  obtain c cs where cs: "str_nat (nat i) = c # cs"
    using str_nat_nonempty [of "nat i"] by (cases "str_nat (nat i)") auto
  then have "c \<in> set (str_nat (nat i))" by simp
  then have c: "c \<noteq> CHR ''-''" "c \<noteq> CHR ''+''"
    using str_nat_digits [of "nat i"] by auto
  have "strip (str_nat (nat i)) = str_nat (nat i)"
    by (rule strip_id) (auto dest: str_nat_no_space)
  with False c cs parse_unsigned_str_nat [of "nat i"] show ?thesis
    by (simp add: py_int_def fmt_i_def)
qed

lemma fmt_i_no_sep: "CHR ''_'' \<notin> set (fmt_i i)"
  using str_nat_digits [of "nat i"] str_nat_digits [of "nat (- i)"]
  by (auto simp: fmt_i_def)

lemma fmt_i_nonempty: "fmt_i i \<noteq> []"
  by (simp add: fmt_i_def str_nat_nonempty)

lemma split_str_no_sep: "d \<notin> set s \<Longrightarrow> split_str d s = [s]"
  by (induction s) auto

lemma split_str_sep: "d \<notin> set a \<Longrightarrow> split_str d (a @ d # b) = a # split_str d b"
  by (induction a) auto

lemma split_name: "split_str CHR ''_'' (fmt_i s @ CHR ''_'' # fmt_i h) = [fmt_i s, fmt_i h]"
  using split_str_sep [OF fmt_i_no_sep, of s "fmt_i h"] split_str_no_sep [OF fmt_i_no_sep, of h]
  by simp

section \<open>Properties of node identifiers\<close>

lemma and_ff: "(x::int) AND 0xff = x mod 256"
proof -
  have "x AND mask 8 = x mod 2 ^ 8"
    by (simp only: take_bit_eq_mask [symmetric] take_bit_eq_mod)
  moreover have "mask 8 = (0xff::int)"
    by (simp add: mask_eq_exp_minus_1)
  ultimately show ?thesis by simp
qed

lemma and_ff00: "drop_bit 8 ((x::int) AND 0xff00) = (x div 256) mod 256"
proof -
  have "drop_bit 8 (x AND 0xff00) = drop_bit 8 x AND drop_bit 8 (0xff00::int)"
    by (simp only: drop_bit_and)
  also have "drop_bit 8 (0xff00::int) = 0xff"
    by (simp add: drop_bit_eq_div)
  finally show ?thesis by (simp only: and_ff) (simp add: drop_bit_eq_div)
qed

lemma shift_and_ff: "drop_bit 8 (x::int) AND 0xff = (x div 256) mod 256"
  by (simp only: and_ff) (simp add: drop_bit_eq_div)

lemma init_from_handle:
  "d \<noteq> 0 \<Longrightarrow> LeafSpineNodeID_init a b (Some d) None =
     Inr \<lparr>dpid = Some d, sw = (d div 256) mod 256, host = d mod 256\<rparr>"
  by (simp add: LeafSpineNodeID_init_def and_ff) (simp add: drop_bit_eq_div)

lemma high_lane:
  "0 \<le> s \<Longrightarrow> s \<le> 255 \<Longrightarrow> 0 \<le> h \<Longrightarrow> h \<le> 255 \<Longrightarrow>
     drop_bit 8 ((push_bit 8 s + h) AND (0xff00::int)) = s"
  by (simp only: and_ff00) (simp add: push_bit_eq_mult)

lemma low_lane:
  "0 \<le> s \<Longrightarrow> s \<le> 255 \<Longrightarrow> 0 \<le> h \<Longrightarrow> h \<le> 255 \<Longrightarrow>
     (push_bit 8 s + h) AND (0xff::int) = h"
  by (simp only: and_ff) (simp add: push_bit_eq_mult)

lemma init_from_fields:
  "LeafSpineNodeID_init s h None None =
     Inr \<lparr>dpid = Some (push_bit 8 s + h), sw = s, host = h\<rparr>"
  by (simp add: LeafSpineNodeID_init_def)

lemma init_from_name:
  "LeafSpineNodeID_init a b None (Some (fmt_i s @ CHR ''_'' # fmt_i h)) =
     Inr \<lparr>dpid = Some (push_bit 8 s + h), sw = s, host = h\<rparr>"
  by (simp add: LeafSpineNodeID_init_def split_name py_int_fmt_i fmt_i_nonempty)

text \<open>
  C1. For coordinate fields \<open>0 \<le> sw \<le> 255\<close> and \<open>0 \<le> host \<le> 255\<close>, constructing
  an identifier from the fields gives the handle \<open>(sw << 8) + host\<close>, and constructing
  an identifier from that handle gives back exactly the fields. The handle 0 is falsy,
  so the constructor falls through to the branch of the default fields, which are 0 and 0.
\<close>

theorem handle_roundtrip:
  assumes "0 \<le> s" "s \<le> 255" "0 \<le> h" "h \<le> 255"
  shows "LeafSpineNodeID_init s h None None =
           Inr \<lparr>dpid = Some (push_bit 8 s + h), sw = s, host = h\<rparr> \<and>
         LeafSpineNodeID_init 0 0 (Some (push_bit 8 s + h)) None =
           Inr \<lparr>dpid = Some (push_bit 8 s + h), sw = s, host = h\<rparr>"
proof (cases "push_bit 8 s + h = 0")
  case True
  then have "s * 256 + h = 0" by (simp add: push_bit_eq_mult)
  with assms have "s = 0" "h = 0" by linarith+
  then show ?thesis by (simp add: LeafSpineNodeID_init_def)
next
  case False
  with assms show ?thesis
    by (simp add: init_from_fields init_from_handle) (simp add: push_bit_eq_mult)
qed

theorem handle_roundtrip_witness:
  "(0::int) \<le> 3 \<and> (3::int) \<le> 255 \<and> (0::int) \<le> 7 \<and> (7::int) \<le> 255 \<and>
   LeafSpineNodeID_init 3 7 None None = Inr \<lparr>dpid = Some 775, sw = 3, host = 7\<rparr> \<and>
   LeafSpineNodeID_init 0 0 (Some 775) None = Inr \<lparr>dpid = Some 775, sw = 3, host = 7\<rparr>"
  using handle_roundtrip [of 3 7] by simp

text \<open>
  C4. \<open>isPortUp\<close> is true at \<open>PORT_BASE\<close>, false at \<open>PORT_BASE + 1\<close>, and from
  \<open>PORT_BASE\<close> on each port has the opposite direction of the port before it.
\<close>

theorem port_parity:
  assumes "PORT_BASE \<le> p"
  shows "isPortUp PORT_BASE \<and> \<not> isPortUp (PORT_BASE + 1) \<and>
         isPortUp (p + 1) = (\<not> isPortUp p)"
  by (simp add: isPortUp_def PORT_BASE_def) presburger

theorem port_parity_witness:
  "PORT_BASE \<le> 6 \<and> isPortUp PORT_BASE \<and> \<not> isPortUp (PORT_BASE + 1) \<and>
   isPortUp (6 + 1) = (\<not> isPortUp 6)"
proof -
  have h: "PORT_BASE \<le> 6" by (simp add: PORT_BASE_def)
  show ?thesis using h port_parity [OF h] by simp
qed

text \<open>
  C5, as the specification states it: encoding a field value of 256 into the 8-bit
  lane fails with \<open>OverflowError\<close>. The constructor has no width check: the call
  returns an identifier.
\<close>

theorem encode_overflow_counterexample:
  "LeafSpineNodeID_init 0 256 None None = Inr \<lparr>dpid = Some 256, sw = 0, host = 256\<rparr> \<and>
   LeafSpineNodeID_init 0 256 None None \<noteq> Inl OverflowError"
  by (simp add: LeafSpineNodeID_init_def)

text \<open>
  C5, amended: encoding coordinate fields never fails, whatever their magnitude. The
  constructor returns the identifier with the fields as given and the handle
  \<open>(sw << 8) + host\<close>; the field value 256 in the low lane gives the handle 256, which
  decodes to the fields 1 and 0.
\<close>

theorem encode_never_fails:
  "LeafSpineNodeID_init s h None None =
     Inr \<lparr>dpid = Some (push_bit 8 s + h), sw = s, host = h\<rparr> \<and>
   LeafSpineNodeID_init 0 256 None None = Inr \<lparr>dpid = Some 256, sw = 0, host = 256\<rparr> \<and>
   LeafSpineNodeID_init 0 0 (Some 256) None = Inr \<lparr>dpid = Some 256, sw = 1, host = 0\<rparr>"
  by (simp add: LeafSpineNodeID_init_def and_ff and_ff00)

text \<open>
  C8. For non-negative coordinate fields, \<open>name_str\<close> is the two decimal numbers
  joined by an underscore, and constructing an identifier from that name gives back
  exactly the fields (and the same handle).
\<close>

theorem name_roundtrip:
  assumes "0 \<le> s" "0 \<le> h"
    and "LeafSpineNodeID_init s h None None = Inr ident"
  shows "name_str ident = fmt_i s @ ''_'' @ fmt_i h \<and>
         LeafSpineNodeID_init 0 0 None (Some (name_str ident)) = Inr ident \<and>
         sw ident = s \<and> host ident = h"
  using assms(3) by (auto simp: init_from_fields name_str_def init_from_name)

theorem name_roundtrip_witness:
  "(0::int) \<le> 1 \<and> (0::int) \<le> 12 \<and>
   LeafSpineNodeID_init 1 12 None None = Inr \<lparr>dpid = Some 268, sw = 1, host = 12\<rparr> \<and>
   name_str \<lparr>dpid = Some 268, sw = 1, host = 12\<rparr> = ''1_12'' \<and>
   LeafSpineNodeID_init 0 0 None (Some ''1_12'') =
     Inr \<lparr>dpid = Some 268, sw = 1, host = 12\<rparr>"
proof -
  have i: "LeafSpineNodeID_init 1 12 None None = Inr \<lparr>dpid = Some 268, sw = 1, host = 12\<rparr>"
    by (simp add: LeafSpineNodeID_init_def)
  have f: "fmt_i 1 = ''1''" "fmt_i 12 = ''12''"
    by (simp_all add: fmt_i_def str_nat.simps digit_char_def)
  show ?thesis using i name_roundtrip [OF _ _ i] by (auto simp: f)
qed

text \<open>
  C10. For fields \<open>0 \<le> sw \<le> 255\<close> and \<open>0 \<le> host \<le> 255\<close>, the address that the base
  class \<open>NodeID.ip_str\<close> computes from bits 8 to 15 and 0 to 7 of the handle is the
  address that \<open>LeafSpineNodeID.ip_str\<close> computes from the fields, \<open>10.0.<sw>.<host>\<close>.
\<close>

theorem ip_str_agree:
  assumes "0 \<le> s" "s \<le> 255" "0 \<le> h" "h \<le> 255"
    and "LeafSpineNodeID_init s h None None = Inr ident"
  shows "NodeID_ip_str ident = Inr (ip_str ident) \<and>
         ip_str ident = ''10.0.'' @ fmt_i s @ ''.'' @ fmt_i h"
proof -
  from assms(5) have ident: "ident = \<lparr>dpid = Some (push_bit 8 s + h), sw = s, host = h\<rparr>"
    by (simp add: init_from_fields)
  have hi: "drop_bit 8 ((push_bit 8 s + h) AND (0xff00::int)) = s"
    using assms(1-4) by (rule high_lane)
  have lo: "(push_bit 8 s + h) AND (0xff::int) = h"
    using assms(1-4) by (rule low_lane)
  have "NodeID_ip_str ident = Inr (''10.0.'' @ fmt_i s @ ''.'' @ fmt_i h)"
    unfolding NodeID_ip_str_def ident
    by (simp only: NodeID.simps LeafSpineNodeID.simps option.case Let_def hi lo)
  moreover have "ip_str ident = ''10.0.'' @ fmt_i s @ ''.'' @ fmt_i h"
    by (simp add: ip_str_def ident)
  ultimately show ?thesis by simp
qed

theorem ip_str_agree_witness:
  "(0::int) \<le> 2 \<and> (2::int) \<le> 255 \<and> (0::int) \<le> 15 \<and> (15::int) \<le> 255 \<and>
   LeafSpineNodeID_init 2 15 None None = Inr \<lparr>dpid = Some 527, sw = 2, host = 15\<rparr> \<and>
   NodeID_ip_str \<lparr>dpid = Some 527, sw = 2, host = 15\<rparr> = Inr ''10.0.2.15'' \<and>
   ip_str \<lparr>dpid = Some 527, sw = 2, host = 15\<rparr> = ''10.0.2.15''"
proof -
  have i: "LeafSpineNodeID_init 2 15 None None = Inr \<lparr>dpid = Some 527, sw = 2, host = 15\<rparr>"
    by (simp add: LeafSpineNodeID_init_def)
  have f: "fmt_i 2 = ''2''" "fmt_i 15 = ''15''"
    by (simp_all add: fmt_i_def str_nat.simps digit_char_def)
  show ?thesis using i ip_str_agree [OF _ _ _ _ i] by (auto simp: f)
qed

section \<open>Properties of the graph store\<close>

lemma map_of_add_node:
  "map_of (add_node n gr) m =
     (if m = n then Some (case map_of gr n of None \<Rightarrow> [] | Some ns \<Rightarrow> ns) else map_of gr m)"
  by (auto simp: add_node_def update_conv' split: option.splits)

lemma nodes_add_node: "set (nodes (add_node n gr)) = insert n (set (nodes gr))"
proof (cases "map_of gr n")
  case None
  then show ?thesis by (simp add: add_node_def nodes_def dom_update)
next
  case (Some ns)
  then have "n \<in> fst ` set gr" by (metis map_of_eq_None_iff option.distinct(1))
  with Some show ?thesis by (auto simp: add_node_def nodes_def)
qed

lemma adj_add_node: "adj (add_node n gr) m = adj gr m"
  by (simp add: adj_def map_of_add_node split: option.splits)

lemma adj_add_neighbor:
  "adj (add_neighbor a b gr) m = (if m = a then insert b (adj gr a) else adj gr m)"
  by (auto simp: adj_def add_neighbor_def update_conv' split: option.splits)

lemma nodes_add_neighbor: "set (nodes (add_neighbor a b gr)) = insert a (set (nodes gr))"
proof (cases "map_of gr a")
  case None
  then show ?thesis by (simp add: add_neighbor_def nodes_def dom_update)
next
  case (Some ns)
  then have "a \<in> fst ` set gr" by (metis map_of_eq_None_iff option.distinct(1))
  with Some show ?thesis by (auto simp: add_neighbor_def nodes_def dom_update)
qed

lemma adj_add_edge:
  "adj (add_edge a b gr) m =
     adj gr m \<union> (if m = a then {b} else {}) \<union> (if m = b then {a} else {})"
  by (auto simp: add_edge_def adj_add_neighbor adj_add_node)

lemma nodes_add_edge: "set (nodes (add_edge a b gr)) = insert a (insert b (set (nodes gr)))"
  by (auto simp: add_edge_def nodes_add_neighbor nodes_add_node)

lemma layer_addNode:
  "layer (addNode n opts t) m =
     (if m = n then (case opt_layer opts of None \<Rightarrow> Inl KeyError | Some l \<Rightarrow> Inr l)
      else layer t m)"
  by (simp add: layer_def addNode_def update_conv')

lemma layer_addLink: "layer (addLink a b opts t) m = layer t m"
  by (simp add: layer_def addLink_def)

lemma has_layer_addNode:
  "opt_layer opts = Some l \<Longrightarrow>
     has_layer (addNode n opts t) m = (m = n \<or> has_layer t m)"
  by (simp add: has_layer_def layer_addNode)

lemma has_layer_addLink: "has_layer (addLink a b opts t) m = has_layer t m"
  by (simp add: has_layer_def layer_addLink)

lemma wf_topo_init: "wf_topo Topo_init"
  by (simp add: wf_topo_def Topo_init_def adj_def nodes_def)

lemma wf_addNode:
  assumes "wf_topo t" "opt_layer opts = Some l"
  shows "wf_topo (addNode n opts t)"
proof -
  have g: "g (addNode n opts t) = add_node n (g t)"
    and ni: "node_info (addNode n opts t) = AList.update n opts (node_info t)"
    by (simp_all add: addNode_def)
  have "\<forall>a b. b \<in> adj (g (addNode n opts t)) a \<longleftrightarrow> a \<in> adj (g (addNode n opts t)) b"
    using assms(1) by (simp add: g adj_add_node wf_topo_def)
  moreover have "\<forall>m \<in> set (nodes (g (addNode n opts t))). has_layer (addNode n opts t) m"
    using assms by (auto simp: g nodes_add_node has_layer_addNode wf_topo_def)
  moreover have "fst ` set (node_info (addNode n opts t)) \<subseteq> set (nodes (g (addNode n opts t)))"
    using assms(1) by (auto simp: g ni nodes_add_node dom_update wf_topo_def)
  ultimately show ?thesis by (simp add: wf_topo_def)
qed

lemma wf_addLink:
  assumes "wf_topo t" "has_layer t a" "has_layer t b"
  shows "wf_topo (addLink a b opts t)"
proof -
  have g: "g (addLink a b opts t) = add_edge a b (g t)"
    and ni: "node_info (addLink a b opts t) = node_info t"
    by (simp_all add: addLink_def)
  have "\<forall>x y. y \<in> adj (g (addLink a b opts t)) x \<longleftrightarrow> x \<in> adj (g (addLink a b opts t)) y"
    using assms(1) by (auto simp: g adj_add_edge wf_topo_def)
  moreover have "\<forall>m \<in> set (nodes (g (addLink a b opts t))). has_layer (addLink a b opts t) m"
    using assms by (auto simp: g nodes_add_edge has_layer_addLink wf_topo_def)
  moreover have "fst ` set (node_info (addLink a b opts t)) \<subseteq> set (nodes (g (addLink a b opts t)))"
    using assms(1) by (auto simp: g ni nodes_add_edge wf_topo_def)
  ultimately show ?thesis by (simp add: wf_topo_def)
qed

lemma inv_addNode:
  "inv_topo X t \<Longrightarrow> opt_layer opts = Some l \<Longrightarrow> inv_topo (insert n X) (addNode n opts t)"
  by (auto simp: inv_topo_def wf_addNode has_layer_addNode)

lemma inv_addLink:
  "inv_topo X t \<Longrightarrow> a \<in> X \<Longrightarrow> b \<in> X \<Longrightarrow> inv_topo X (addLink a b opts t)"
  by (auto simp: inv_topo_def wf_addLink has_layer_addLink)

lemma inv_mono: "inv_topo X t \<Longrightarrow> Y \<subseteq> X \<Longrightarrow> inv_topo Y t"
  by (auto simp: inv_topo_def)

lemma foldM_invariant:
  assumes "\<And>x s s'. x \<in> set xs \<Longrightarrow> P s \<Longrightarrow> f x s = Inr s' \<Longrightarrow> P s'"
    and "P s" and "foldM f xs s = Inr s'"
  shows "P s'"
  using assms
proof (induction xs arbitrary: s)
  case Nil
  then show ?case by simp
next
  case (Cons x xs)
  from Cons.prems(3) obtain s1 where s1: "f x s = Inr s1" and rest: "foldM f xs s1 = Inr s'"
    by (auto split: sum.splits)
  from Cons.prems(1) [of x s s1] Cons.prems(2) s1 have p1: "P s1" by simp
  show ?case
  proof (rule Cons.IH [OF _ p1 rest])
    fix y u u'
    assume "y \<in> set xs" "P u" "f y u = Inr u'"
    then show "P u'" using Cons.prems(1) [of y u u'] by simp
  qed
qed

lemma foldM_total:
  assumes "\<And>x s. \<exists>s'. f x s = Inr s'"
  shows "\<exists>s'. foldM f xs s = Inr s'"
proof (induction xs arbitrary: s)
  case Nil
  then show ?case by simp
next
  case (Cons x xs)
  from assms obtain s1 where "f x s = Inr s1" by blast
  with Cons.IH [of s1] show ?case by simp
qed

section \<open>Properties of the LeafSpineTopo constructor\<close>

lemma def_nopts_layer: "def_nopts l name = Inr opts \<Longrightarrow> opt_layer opts = Some l"
  by (auto simp: def_nopts_def no_nopts_def Let_def split: option.splits sum.splits if_splits)

lemma def_nopts_name_str:
  "\<exists>opts. def_nopts l (Some (fmt_i s @ CHR ''_'' # fmt_i h)) = Inr opts"
  by (simp add: def_nopts_def init_from_name fmt_i_nonempty Let_def)

lemma spine_step_inv:
  assumes "inv_topo (set (snd st)) (fst st)" "spine_step s st = Inr st'"
  shows "inv_topo (set (snd st')) (fst st')"
proof -
  from assms(2) obtain opts where o: "def_nopts LAYER_SPINE (Some (fmt_i 0 @ CHR ''_'' # fmt_i s)) = Inr opts"
    and st': "st' = (addSwitch (fmt_i 0 @ CHR ''_'' # fmt_i s) opts (fst st), snd st @ [fmt_i 0 @ CHR ''_'' # fmt_i s])"
    by (auto simp: spine_step_def init_from_fields name_str_def Let_def split: sum.splits)
  from o have "opt_layer (opts\<lparr>opt_isSwitch := True\<rparr>) = Some LAYER_SPINE"
    by (simp add: def_nopts_layer)
  from inv_addNode [OF assms(1) this] show ?thesis
    by (simp add: st' addSwitch_def)
qed

lemma host_step_inv:
  assumes "inv_topo X t" "leaf_id \<in> X" "host_step kk l leaf_id h t = Inr t'"
  shows "inv_topo X t'"
proof -
  define hid where "hid = fmt_i 2 @ CHR ''_'' # fmt_i (l * (kk div 2) + h)"
  from assms(3) obtain opts where o: "def_nopts LAYER_HOST (Some hid) = Inr opts"
    and t': "t' = addLink hid leaf_id no_lopts (addHost hid opts t)"
    by (auto simp: host_step_def init_from_fields name_str_def hid_def Let_def split: sum.splits)
  from o have "opt_layer opts = Some LAYER_HOST" by (rule def_nopts_layer)
  from inv_addNode [OF assms(1) this] have "inv_topo (insert hid X) (addHost hid opts t)"
    by (simp add: addHost_def)
  then have "inv_topo (insert hid X) t'"
    unfolding t' using assms(2) by (intro inv_addLink) auto
  then show ?thesis by (rule inv_mono) auto
qed

lemma uplink_step_inv:
  assumes "inv_topo X t" "leaf_id \<in> X" "s \<in> X" "uplink_step leaf_id s t = Inr t'"
  shows "inv_topo X t'"
  using assms by (auto simp: uplink_step_def inv_addLink)

lemma leaf_step_inv:
  assumes "inv_topo (set spines) t" "leaf_step kk spines l t = Inr t'"
  shows "inv_topo (set spines) t'"
proof -
  define lid where "lid = fmt_i 1 @ CHR ''_'' # fmt_i l"
  from assms(2) obtain opts t1 where o: "def_nopts LAYER_LEAF (Some lid) = Inr opts"
    and t1: "foldM (host_step kk l lid) (range_list 0 (kk div 2)) (addSwitch lid opts t) = Inr t1"
    and t': "foldM (uplink_step lid) spines t1 = Inr t'"
    by (auto simp: leaf_step_def init_from_fields name_str_def lid_def Let_def split: sum.splits)
  let ?X = "insert lid (set spines)"
  from o have "opt_layer (opts\<lparr>opt_isSwitch := True\<rparr>) = Some LAYER_LEAF"
    by (simp add: def_nopts_layer)
  from inv_addNode [OF assms(1) this] have 0: "inv_topo ?X (addSwitch lid opts t)"
    by (simp add: addSwitch_def)
  have 1: "inv_topo ?X t1"
    by (rule foldM_invariant [where P = "inv_topo ?X", OF _ 0 t1]) (auto intro: host_step_inv)
  have 2: "inv_topo ?X t'"
    by (rule foldM_invariant [where P = "inv_topo ?X", OF _ 1 t']) (auto intro: uplink_step_inv)
  then show ?thesis by (rule inv_mono) auto
qed

lemma LeafSpineTopo_init_wf:
  assumes "LeafSpineTopo_init kk = Inr t"
  shows "wf_topo t"
proof -
  from assms obtain st where st: "foldM spine_step (range_list 0 kk) (Topo_init, []) = Inr st"
    and t: "foldM (leaf_step kk (snd st)) (range_list 0 (kk * 2)) (fst st) = Inr t"
    by (auto simp: LeafSpineTopo_init_def split: sum.splits)
  have 0: "inv_topo (set (snd (Topo_init, []))) (fst (Topo_init, []))"
    by (simp add: inv_topo_def wf_topo_init)
  have 1: "inv_topo (set (snd st)) (fst st)"
    by (rule foldM_invariant [where P = "\<lambda>st. inv_topo (set (snd st)) (fst st)", OF _ 0 st])
       (rule spine_step_inv)
  have "inv_topo (set (snd st)) t"
    by (rule foldM_invariant [where P = "inv_topo (set (snd st))", OF _ 1 t]) (rule leaf_step_inv)
  then show ?thesis by (simp add: inv_topo_def)
qed

lemma spine_step_total: "\<exists>st'. spine_step s st = Inr st'"
  using def_nopts_name_str [of LAYER_SPINE 0 s]
  by (auto simp: spine_step_def init_from_fields name_str_def Let_def)

lemma host_step_total: "\<exists>t'. host_step kk l leaf_id h t = Inr t'"
  using def_nopts_name_str [of LAYER_HOST 2 "l * (kk div 2) + h"]
  by (auto simp: host_step_def init_from_fields name_str_def Let_def)

lemma leaf_step_total: "\<exists>t'. leaf_step kk spines l t = Inr t'"
proof -
  define lid where "lid = fmt_i 1 @ CHR ''_'' # fmt_i l"
  obtain opts where o: "def_nopts LAYER_LEAF (Some lid) = Inr opts"
    using def_nopts_name_str [of LAYER_LEAF 1 l] by (auto simp: lid_def)
  obtain t1 where t1: "foldM (host_step kk l lid) (range_list 0 (kk div 2)) (addSwitch lid opts t) = Inr t1"
    using foldM_total [of "host_step kk l lid", OF host_step_total] by blast
  obtain t2 where "foldM (uplink_step lid) spines t1 = Inr t2"
    using foldM_total [of "uplink_step lid"] by (auto simp: uplink_step_def)
  with o t1 show ?thesis
    by (simp add: leaf_step_def init_from_fields name_str_def lid_def Let_def)
qed

lemma LeafSpineTopo_init_total: "\<exists>t. LeafSpineTopo_init kk = Inr t"
proof -
  obtain st where st: "foldM spine_step (range_list 0 kk) (Topo_init, []) = Inr st"
    using foldM_total [of spine_step, OF spine_step_total] by blast
  obtain t where "foldM (leaf_step kk (snd st)) (range_list 0 (kk * 2)) (fst st) = Inr t"
    using foldM_total [of "leaf_step kk (snd st)", OF leaf_step_total] by blast
  with st show ?thesis by (simp add: LeafSpineTopo_init_def)
qed

section \<open>Properties of the layer queries\<close>

lemma filterM_filter:
  "\<forall>x \<in> set xs. p x = Inr (q x) \<Longrightarrow> filterM p xs = Inr (filter q xs)"
  by (induction xs) auto

lemma in_nodes_iff: "n \<in> set (nodes gr) \<longleftrightarrow> map_of gr n \<noteq> None"
  by (simp add: nodes_def map_of_eq_None_iff)

lemma adj_in_nodes: "b \<in> adj gr a \<Longrightarrow> a \<in> set (nodes gr)"
  by (auto simp: adj_def in_nodes_iff split: option.splits)

lemma wf_neighbor_has_layer:
  assumes "wf_topo t" "map_of (g t) a = Some ns" "n \<in> set ns"
  shows "has_layer t n"
proof -
  from assms(2,3) have "n \<in> adj (g t) a" by (simp add: adj_def)
  with assms(1) have "a \<in> adj (g t) n" by (simp add: wf_topo_def)
  then have "n \<in> set (nodes (g t))" by (rule adj_in_nodes)
  with assms(1) show ?thesis by (simp add: wf_topo_def)
qed

lemma wf_filter_layer:
  assumes "wf_topo t" "map_of (g t) a = Some ns"
  shows "filterM (is_layer t l) ns = Inr (filter (\<lambda>n. layer t n = Inr l) ns)"
proof (rule filterM_filter, rule ballI)
  fix n
  assume "n \<in> set ns"
  with assms have "has_layer t n" by (rule wf_neighbor_has_layer)
  then show "is_layer t l n = Inr (layer t n = Inr l)"
    by (auto simp: has_layer_def is_layer_def split: sum.splits)
qed

lemma wf_down_nodes:
  assumes "wf_topo t" "layer t a = Inr l" "map_of (g t) a = Some ns"
  shows "down_nodes t a = Inr (filter (\<lambda>n. layer t n = Inr (l + 1)) ns)"
  using assms wf_filter_layer [OF assms(1,3)]
  by (simp add: down_nodes_def neighbors_def)

lemma wf_up_nodes:
  assumes "wf_topo t" "layer t a = Inr l" "map_of (g t) a = Some ns"
  shows "up_nodes t a = Inr (filter (\<lambda>n. layer t n = Inr (l - 1)) ns)"
  using assms wf_filter_layer [OF assms(1,3)]
  by (simp add: up_nodes_def neighbors_def)

lemma wf_vertex:
  assumes "wf_topo t" "a \<in> set (nodes (g t))"
  obtains l ns where "layer t a = Inr l" "map_of (g t) a = Some ns"
proof -
  from assms have "has_layer t a" by (simp add: wf_topo_def)
  then obtain l where "layer t a = Inr l"
    by (auto simp: has_layer_def split: sum.splits)
  moreover from assms(2) obtain ns where "map_of (g t) a = Some ns"
    by (auto simp: in_nodes_iff)
  ultimately show thesis by (rule that)
qed

lemma wf_unknown_vertex:
  assumes "wf_topo t" "name \<notin> set (nodes (g t))"
  shows "layer t name = Inl KeyError"
proof -
  from assms have "name \<notin> fst ` set (node_info t)" by (auto simp: wf_topo_def)
  then have "map_of (node_info t) name = None" by (simp add: map_of_eq_None_iff)
  then show ?thesis by (simp add: layer_def)
qed

text \<open>
  C3. In every graph that the constructor builds, for all vertices \<open>a\<close> and \<open>b\<close> of the
  graph (in particular for the two ends of an edge between adjacent layers, in either
  order), both queries return, and \<open>b\<close> is among \<open>down_nodes(a)\<close> exactly when \<open>a\<close> is
  among \<open>up_nodes(b)\<close>.
\<close>

theorem adjacency_symmetry:
  assumes "LeafSpineTopo_init kk = Inr t"
    and "a \<in> set (nodes (g t))" and "b \<in> set (nodes (g t))"
  shows "\<exists>downs ups. down_nodes t a = Inr downs \<and> up_nodes t b = Inr ups \<and>
           (b \<in> set downs \<longleftrightarrow> a \<in> set ups)"
proof -
  from assms(1) have wf: "wf_topo t" by (rule LeafSpineTopo_init_wf)
  from wf assms(2) obtain la nsa where a: "layer t a = Inr la" "map_of (g t) a = Some nsa"
    by (rule wf_vertex)
  from wf assms(3) obtain lb nsb where b: "layer t b = Inr lb" "map_of (g t) b = Some nsb"
    by (rule wf_vertex)
  have d: "down_nodes t a = Inr (filter (\<lambda>n. layer t n = Inr (la + 1)) nsa)"
    using wf a by (rule wf_down_nodes)
  have u: "up_nodes t b = Inr (filter (\<lambda>n. layer t n = Inr (lb - 1)) nsb)"
    using wf b by (rule wf_up_nodes)
  from wf have "b \<in> adj (g t) a \<longleftrightarrow> a \<in> adj (g t) b" by (simp add: wf_topo_def)
  with a b have "b \<in> set nsa \<longleftrightarrow> a \<in> set nsb" by (simp add: adj_def)
  with a b have "b \<in> set (filter (\<lambda>n. layer t n = Inr (la + 1)) nsa) \<longleftrightarrow>
                 a \<in> set (filter (\<lambda>n. layer t n = Inr (lb - 1)) nsb)"
    by auto
  with d u show ?thesis by simp
qed

theorem adjacency_symmetry_witness:
  "\<exists>t downs ups. LeafSpineTopo_init 2 = Inr t \<and>
     ''1_0'' \<in> set (nodes (g t)) \<and> ''2_0'' \<in> set (nodes (g t)) \<and>
     down_nodes t ''1_0'' = Inr downs \<and> up_nodes t ''2_0'' = Inr ups \<and>
     (''2_0'' \<in> set downs \<longleftrightarrow> ''1_0'' \<in> set ups) \<and> ''2_0'' \<in> set downs"
proof -
  obtain t where t: "LeafSpineTopo_init 2 = Inr t"
    using LeafSpineTopo_init_total by blast
  have "case LeafSpineTopo_init 2 of
          Inl e \<Rightarrow> False
        | Inr t \<Rightarrow> ''1_0'' \<in> set (nodes (g t)) \<and> ''2_0'' \<in> set (nodes (g t)) \<and>
            (case down_nodes t ''1_0'' of Inl e \<Rightarrow> False | Inr downs \<Rightarrow> ''2_0'' \<in> set downs)"
    by code_simp
  with t have n: "''1_0'' \<in> set (nodes (g t))" "''2_0'' \<in> set (nodes (g t))"
    and d: "case down_nodes t ''1_0'' of Inl e \<Rightarrow> False | Inr downs \<Rightarrow> ''2_0'' \<in> set downs"
    by simp_all
  from adjacency_symmetry [OF t n] obtain downs ups where
    "down_nodes t ''1_0'' = Inr downs" "up_nodes t ''2_0'' = Inr ups"
    "''2_0'' \<in> set downs \<longleftrightarrow> ''1_0'' \<in> set ups"
    by blast
  with t n d show ?thesis by auto
qed

text \<open>
  C7. For every name that is not a vertex of the built graph, \<open>layer\<close>, \<open>up_nodes\<close> and
  \<open>down_nodes\<close> raise \<open>KeyError\<close>, the exception that the specification calls
  NotFoundError.
\<close>

theorem unknown_vertex_fails:
  assumes "LeafSpineTopo_init kk = Inr t" and "name \<notin> set (nodes (g t))"
  shows "layer t name = Inl KeyError \<and> up_nodes t name = Inl KeyError \<and>
         down_nodes t name = Inl KeyError"
proof -
  from assms(1) have "wf_topo t" by (rule LeafSpineTopo_init_wf)
  then have "layer t name = Inl KeyError" using assms(2) by (rule wf_unknown_vertex)
  then show ?thesis by (simp add: up_nodes_def down_nodes_def)
qed

theorem unknown_vertex_fails_witness:
  "\<exists>t. LeafSpineTopo_init 2 = Inr t \<and> ''3_0'' \<notin> set (nodes (g t)) \<and>
     layer t ''3_0'' = Inl KeyError \<and> up_nodes t ''3_0'' = Inl KeyError \<and>
     down_nodes t ''3_0'' = Inl KeyError"
proof -
  obtain t where t: "LeafSpineTopo_init 2 = Inr t"
    using LeafSpineTopo_init_total by blast
  have "case LeafSpineTopo_init 2 of
          Inl e \<Rightarrow> False
        | Inr t \<Rightarrow> ''3_0'' \<notin> set (nodes (g t)) \<and> nodes (g t) \<noteq> []"
    by code_simp
  with t have n: "''3_0'' \<notin> set (nodes (g t))" by simp
  from unknown_vertex_fails [OF t n] t n show ?thesis by blast
qed

section \<open>The concrete topologies\<close>

text \<open>
  C2. \<open>LeafSpineTopo\<close> with \<open>k = 4\<close> builds 4 spine vertices (layer 0), 8 leaf vertices
  (layer 1) and 16 host vertices (layer 2), and no other vertex; every leaf has exactly 4
  up-edges, one to each spine, and exactly 2 down-edges, both to hosts; every host has
  exactly 1 up-edge.
\<close>

theorem leaf_spine_k4:
  "(case LeafSpineTopo_init 4 of
      Inl e \<Rightarrow> False
    | Inr t \<Rightarrow>
        (case (layer_nodes t LAYER_SPINE, layer_nodes t LAYER_LEAF, layer_nodes t LAYER_HOST) of
           (Inr spines, Inr leaves, Inr hosts) \<Rightarrow>
             distinct spines \<and> length spines = 4 \<and>
             distinct leaves \<and> length leaves = 8 \<and>
             distinct hosts \<and> length hosts = 16 \<and>
             set (nodes (g t)) = set (spines @ leaves @ hosts) \<and>
             list_all (\<lambda>l.
                 case (up_edges t l, down_edges t l) of
                   (Inr ups, Inr downs) \<Rightarrow>
                     distinct ups \<and> length ups = 4 \<and> set ups = set (map (Pair l) spines) \<and>
                     distinct downs \<and> length downs = 2 \<and>
                     list_all (\<lambda>e. fst e = l \<and> snd e \<in> set hosts) downs
                 | _ \<Rightarrow> False) leaves \<and>
             list_all (\<lambda>h.
                 case up_edges t h of
                   Inr ups \<Rightarrow> distinct ups \<and> length ups = 1
                 | Inl e \<Rightarrow> False) hosts
         | _ \<Rightarrow> False))"
  by code_simp

text \<open>
  C6, as the specification states it: building with \<open>k = 3\<close> fails with
  \<open>ConfigurationError\<close>. The constructor checks nothing about \<open>k\<close>: the build
  returns a graph.
\<close>

theorem odd_k_counterexample: "LeafSpineTopo_init 3 \<noteq> Inl ConfigurationError"
proof -
  obtain t where "LeafSpineTopo_init 3 = Inr t"
    using LeafSpineTopo_init_total by blast
  then show ?thesis by simp
qed

text \<open>
  C6, amended: building with \<open>k = 3\<close> does not fail. \<open>k / 2\<close> is the integer division,
  1, and the build completes with 3 spine vertices, 6 leaf vertices and 6 host vertices,
  every leaf with 3 up-edges, one to each spine, and 1 down-edge to its host.
\<close>

theorem leaf_spine_k3:
  "(case LeafSpineTopo_init 3 of
      Inl e \<Rightarrow> False
    | Inr t \<Rightarrow>
        (case (layer_nodes t LAYER_SPINE, layer_nodes t LAYER_LEAF, layer_nodes t LAYER_HOST) of
           (Inr spines, Inr leaves, Inr hosts) \<Rightarrow>
             distinct spines \<and> length spines = 3 \<and>
             distinct leaves \<and> length leaves = 6 \<and>
             distinct hosts \<and> length hosts = 6 \<and>
             set (nodes (g t)) = set (spines @ leaves @ hosts) \<and>
             list_all (\<lambda>l.
                 case (up_edges t l, down_edges t l) of
                   (Inr ups, Inr downs) \<Rightarrow>
                     distinct ups \<and> length ups = 3 \<and> set ups = set (map (Pair l) spines) \<and>
                     distinct downs \<and> length downs = 1 \<and>
                     list_all (\<lambda>e. fst e = l \<and> snd e \<in> set hosts) downs
                 | _ \<Rightarrow> False) leaves
         | _ \<Rightarrow> False))"
  by code_simp

text \<open>
  C9. \<open>MyTopo\<close> (1 spine, 2 leaves, 2 hosts per leaf) builds exactly the vertices
  \<open>s0\<close>; \<open>l0\<close>, \<open>l1\<close>; \<open>h0\<close>, \<open>h1\<close>, \<open>h2\<close>, \<open>h3\<close>, the first three as switches. Each
  leaf is joined to the spine (its one up-edge) and to its two hosts (its two
  down-edges) and to nothing else; the spine is joined to the two leaves and to nothing
  else; there are six links in all.
\<close>

theorem my_topo_shape:
  "(case MyTopo_init of
      Inl e \<Rightarrow> False
    | Inr t \<Rightarrow>
        distinct (nodes (g t)) \<and>
        set (nodes (g t)) = set ([''s0''] @ [''l0'', ''l1''] @ [''h0'', ''h1'', ''h2'', ''h3'']) \<and>
        map (\<lambda>n. map_option opt_isSwitch (map_of (node_info t) n))
          [''s0'', ''l0'', ''l1'', ''h0'', ''h1'', ''h2'', ''h3''] =
          [Some True, Some True, Some True, Some False, Some False, Some False, Some False] \<and>
        length (link_info t) = 6 \<and>
        (case (neighbors (g t) ''s0'', neighbors (g t) ''l0'', neighbors (g t) ''l1'') of
           (Inr ns, Inr n0, Inr n1) \<Rightarrow>
             distinct ns \<and> set ns = set [''l0'', ''l1''] \<and>
             distinct n0 \<and> set n0 = set ([''s0''] @ [''h0'', ''h1'']) \<and>
             distinct n1 \<and> set n1 = set ([''s0''] @ [''h2'', ''h3''])
         | _ \<Rightarrow> False))"
  by code_simp

end
